theory Spec2Isabelle
  imports Main "HOL-Library.AList"
begin

section \<open>The pattern-matching engine (quantum\_analyzer.py)\<close>

text \<open>
  Python dictionaries keep insertion order and \<open>d[k] = v\<close> replaces the value of a
  key in place (or appends a new key), so a dictionary is an association list
  written by \<open>AList.update\<close> and read by \<open>map_of\<close>. Text is a byte string holding
  the UTF-8 encoding of Python's string.

  The regular-expression engine and the file system are outside the repository
  and are fields of a record \<open>world\<close>: \<open>re_search r l\<close> is the truth value of
  \<open>re.compile(r).search(l)\<close>, \<open>re_valid r\<close> says that \<open>re.compile(r)\<close> does not raise,
  \<open>readlines p\<close> is \<open>None\<close> when \<open>open\<close> or \<open>readlines\<close> raises, \<open>rglob_py d\<close> is
  \<open>list(d.rglob("*.py"))\<close> and \<open>relative_to p d\<close> is \<open>str(p.relative_to(d))\<close>.
\<close>

subsection \<open>The world outside the repository\<close>

record world =
  re_search :: "string \<Rightarrow> string \<Rightarrow> bool"
  re_valid :: "string \<Rightarrow> bool"
  readlines :: "string \<Rightarrow> string list option"
  rglob_py :: "string \<Rightarrow> string list"
  relative_to :: "string \<Rightarrow> string \<Rightarrow> string"

subsection \<open>Data model\<close>

datatype Severity = INFO | WARNING | CRITICAL

record ImprovementPattern =
  regex :: string
  ideas :: "string list"
  severity :: Severity
  tags :: "string list"

record CodeLine =
  cl_line :: string
  cl_ideas :: "string list"
  cl_severity :: Severity
  cl_tags :: "string list"

record CodeAnalyzer =
  patterns :: "ImprovementPattern list"
  min_severity :: Severity
  selected_tags :: "string list option"

text \<open>\<open>CodeAnalyzer.__init__\<close>: an absent or empty tag list switches the filter off.\<close>

definition CodeAnalyzer_init ::
  "ImprovementPattern list \<Rightarrow> Severity \<Rightarrow> string list option \<Rightarrow> CodeAnalyzer" where
  "CodeAnalyzer_init ps ms st =
     \<lparr>patterns = ps, min_severity = ms,
      selected_tags = (case st of None \<Rightarrow> None | Some ts \<Rightarrow> if ts = [] then None else Some ts)\<rparr>"

fun severity_values :: "Severity \<Rightarrow> nat" where
  "severity_values INFO = 0"
| "severity_values WARNING = 1"
| "severity_values CRITICAL = 2"

subsection \<open>LineMatcher\<close>

definition should_include_pattern :: "CodeAnalyzer \<Rightarrow> ImprovementPattern \<Rightarrow> bool" where
  "should_include_pattern a p =
     (if severity_values (severity p) < severity_values (min_severity a) then False
      else (case selected_tags a of
              None \<Rightarrow> True
            | Some ts \<Rightarrow> if ts \<noteq> [] \<and> set (tags p) \<inter> set ts = {} then False else True))"

text \<open>
  \<open>str.strip()\<close> removes the white space of Python at both ends: the code points for
  which \<open>str.isspace()\<close> holds, here in their UTF-8 encoding (tab to carriage return,
  the separators 1C to 1F, space, U+0085, U+00A0, U+1680, U+2000 to U+200A, U+2028,
  U+2029, U+202F, U+205F, U+3000). In decoded text a lead byte starts a code point, so
  matching the encodings at either end matches the code points.
\<close>

definition whitespace :: "string list" where
  "whitespace =
     [[CHR 0x09], [CHR 0x0A], [CHR 0x0B], [CHR 0x0C], [CHR 0x0D], [CHR 0x1C], [CHR 0x1D],
      [CHR 0x1E], [CHR 0x1F], [CHR 0x20], [CHR 0xC2, CHR 0x85], [CHR 0xC2, CHR 0xA0],
      [CHR 0xE1, CHR 0x9A, CHR 0x80], [CHR 0xE2, CHR 0x80, CHR 0x80],
      [CHR 0xE2, CHR 0x80, CHR 0x81], [CHR 0xE2, CHR 0x80, CHR 0x82],
      [CHR 0xE2, CHR 0x80, CHR 0x83], [CHR 0xE2, CHR 0x80, CHR 0x84],
      [CHR 0xE2, CHR 0x80, CHR 0x85], [CHR 0xE2, CHR 0x80, CHR 0x86],
      [CHR 0xE2, CHR 0x80, CHR 0x87], [CHR 0xE2, CHR 0x80, CHR 0x88],
      [CHR 0xE2, CHR 0x80, CHR 0x89], [CHR 0xE2, CHR 0x80, CHR 0x8A],
      [CHR 0xE2, CHR 0x80, CHR 0xA8], [CHR 0xE2, CHR 0x80, CHR 0xA9],
      [CHR 0xE2, CHR 0x80, CHR 0xAF], [CHR 0xE2, CHR 0x81, CHR 0x9F],
      [CHR 0xE3, CHR 0x80, CHR 0x80]]"

definition ws_at :: "string list \<Rightarrow> string \<Rightarrow> string option" where
  "ws_at seqs s = find (\<lambda>w. w \<noteq> [] \<and> take (length w) s = w) seqs"

function lstrip :: "string list \<Rightarrow> string \<Rightarrow> string" where
  "lstrip seqs s = (case ws_at seqs s of None \<Rightarrow> s | Some w \<Rightarrow> lstrip seqs (drop (length w) s))"
  by pat_completeness auto
termination
proof (relation "measure (\<lambda>(seqs, s). length s)", goal_cases)
  case (2 seqs s w)
  then have "w \<noteq> []" and "take (length w) s = w"
    by (auto simp: ws_at_def find_Some_iff)
  then have "0 < length w" and "length (take (length w) s) = length w"
    by simp_all
  then have "w \<noteq> []" and "length w \<le> length s"
    by simp_all
  then show ?case by (cases w) auto
qed simp

definition strip :: "string \<Rightarrow> string" where
  "strip s = rev (lstrip (map rev whitespace) (rev (lstrip whitespace s)))"

definition make_CodeLine :: "string \<Rightarrow> ImprovementPattern \<Rightarrow> CodeLine" where
  "make_CodeLine l p =
     \<lparr>cl_line = l, cl_ideas = ideas p, cl_severity = severity p, cl_tags = tags p\<rparr>"

text \<open>The loop of \<open>analyze_line\<close> over \<open>self.patterns\<close>, on the stripped line.\<close>

fun match_patterns ::
  "world \<Rightarrow> CodeAnalyzer \<Rightarrow> string \<Rightarrow> ImprovementPattern list \<Rightarrow> CodeLine list" where
  "match_patterns w a l [] = []"
| "match_patterns w a l (p # ps) =
     (if \<not> should_include_pattern a p then match_patterns w a l ps
      else if re_search w (regex p) l then make_CodeLine l p # match_patterns w a l ps
      else match_patterns w a l ps)"

definition analyze_line ::
  "world \<Rightarrow> CodeAnalyzer \<Rightarrow> string \<Rightarrow> CodeLine list" where
  "analyze_line w a line0 =
     (let line = strip line0 in
      if line = [] \<or> hd line = CHR ''#'' then []
      else match_patterns w a line (patterns a))"

subsection \<open>Scanning one file\<close>

text \<open>
  \<open>analyze_file\<close>: the loop over \<open>enumerate(lines, 1)\<close>; a line with matches stores the
  first of them under its number. A file that cannot be opened, read or decoded
  raises before the loop starts, and the handler returns the empty dictionary.
\<close>

fun scan_lines ::
  "world \<Rightarrow> CodeAnalyzer \<Rightarrow> nat \<Rightarrow> string list \<Rightarrow>
   (nat \<times> CodeLine) list \<Rightarrow> (nat \<times> CodeLine) list" where
  "scan_lines w a n [] res = res"
| "scan_lines w a n (l # ls) res =
     (case analyze_line w a l of
        [] \<Rightarrow> scan_lines w a (Suc n) ls res
      | r # _ \<Rightarrow> scan_lines w a (Suc n) ls (AList.update n r res))"

definition analyze_file ::
  "world \<Rightarrow> CodeAnalyzer \<Rightarrow> string \<Rightarrow>
   (nat \<times> CodeLine) list" where
  "analyze_file w a file_path =
     (case readlines w file_path of
        None \<Rightarrow> []
      | Some lines \<Rightarrow> scan_lines w a 1 lines [])"

subsection \<open>ResultStore (AnalysisResults)\<close>

record entry =
  e_line :: string
  e_ideas :: "string list"
  e_severity :: Severity
  e_tags :: "string list"

type_synonym results = "(string \<times> (nat \<times> entry) list) list"

definition entry_of :: "CodeLine \<Rightarrow> entry" where
  "entry_of c =
     \<lparr>e_line = cl_line c, e_ideas = cl_ideas c, e_severity = cl_severity c, e_tags = cl_tags c\<rparr>"

text \<open>
  \<open>self.results[str_path][line_num] = {...}\<close> on a \<open>defaultdict(dict)\<close>: a missing path
  is first given an empty dictionary, then the line is assigned.
\<close>

definition set_line :: "string \<Rightarrow> nat \<Rightarrow> entry \<Rightarrow> results \<Rightarrow> results" where
  "set_line p n e rs =
     AList.update p (AList.update n e (case map_of rs p of None \<Rightarrow> [] | Some d \<Rightarrow> d)) rs"

fun add_lines :: "string \<Rightarrow> (nat \<times> CodeLine) list \<Rightarrow> results \<Rightarrow> results" where
  "add_lines p [] rs = rs"
| "add_lines p ((n, c) # fr) rs = add_lines p fr (set_line p n (entry_of c) rs)"

definition add_file_results :: "results \<Rightarrow> string \<Rightarrow> (nat \<times> CodeLine) list \<Rightarrow> results" where
  "add_file_results rs file_path file_results =
     (if file_results = [] then rs else add_lines file_path file_results rs)"

definition lookup :: "results \<Rightarrow> string \<Rightarrow> nat \<Rightarrow> entry option" where
  "lookup rs p n = (case map_of rs p of None \<Rightarrow> None | Some d \<Rightarrow> map_of d n)"

definition to_dict :: "results \<Rightarrow> results" where
  "to_dict rs = rs"

subsection \<open>ProjectScanner (ProjectAnalyzer)\<close>

record ProjectAnalyzer =
  project_path :: string
  code_analyzer :: CodeAnalyzer
  results :: results
  parallel :: bool

definition ProjectAnalyzer_init ::
  "string \<Rightarrow> ImprovementPattern list \<Rightarrow> Severity \<Rightarrow> string list option \<Rightarrow> bool \<Rightarrow> ProjectAnalyzer" where
  "ProjectAnalyzer_init path ps ms st par =
     \<lparr>project_path = path, code_analyzer = CodeAnalyzer_init ps ms st, results = [], parallel = par\<rparr>"

definition analyze_file_worker ::
  "world \<Rightarrow> ProjectAnalyzer \<Rightarrow> string \<Rightarrow> string \<times> (nat \<times> CodeLine) list" where
  "analyze_file_worker w pa file_path =
     (relative_to w file_path (project_path pa), analyze_file w (code_analyzer pa) file_path)"

text \<open>
  \<open>ThreadPoolExecutor.map(f, xs)\<close> submits one task per element and yields the
  results in the order of \<open>xs\<close>, whatever the order in which the workers finish. The
  tasks share no mutable state, so a run of the pool is the order in which the tasks
  complete: \<open>sched\<close> lists the task indices in completion order, every completion
  fills the slot of its own task, and the caller reads the slots from first to last.
  A slot that is never filled is a task that never completes: the caller waits for ever
  (\<open>None\<close>).
\<close>

fun run_tasks :: "('a \<Rightarrow> 'b) \<Rightarrow> 'a list \<Rightarrow> nat list \<Rightarrow> 'b option list \<Rightarrow> 'b option list" where
  "run_tasks f xs [] slots = slots"
| "run_tasks f xs (i # sched) slots =
     run_tasks f xs sched (if i < length xs then slots[i := Some (f (xs ! i))] else slots)"

definition executor_map :: "('a \<Rightarrow> 'b) \<Rightarrow> 'a list \<Rightarrow> nat list \<Rightarrow> 'b list option" where
  "executor_map f xs sched = those (run_tasks f xs sched (replicate (length xs) None))"

fun add_all :: "(string \<times> (nat \<times> CodeLine) list) list \<Rightarrow> results \<Rightarrow> results" where
  "add_all [] rs = rs"
| "add_all ((relative_path, file_results) # rest) rs =
     add_all rest (add_file_results rs relative_path file_results)"

fun analyze_sequential :: "world \<Rightarrow> ProjectAnalyzer \<Rightarrow> string list \<Rightarrow> results \<Rightarrow> results" where
  "analyze_sequential w pa [] rs = rs"
| "analyze_sequential w pa (file_path # rest) rs =
     (let relative_path = relative_to w file_path (project_path pa);
          file_results = analyze_file w (code_analyzer pa) file_path
      in analyze_sequential w pa rest (add_file_results rs relative_path file_results))"

text \<open>\<open>ProjectAnalyzer.analyze\<close>; the result is \<open>self.results\<close> when the call returns.\<close>

definition analyze :: "world \<Rightarrow> nat list \<Rightarrow> ProjectAnalyzer \<Rightarrow> results option" where
  "analyze w sched pa =
     (let python_files = rglob_py w (project_path pa) in
      if parallel pa then
        (case executor_map (analyze_file_worker w pa) python_files sched of
           None \<Rightarrow> None
         | Some rs \<Rightarrow> Some (add_all rs (results pa)))
      else Some (analyze_sequential w pa python_files (results pa)))"

subsection \<open>PatternRegistry (PatternLoader)\<close>



datatype error =
    ValueError string
  | KeyError string
  | AttributeError string







section \<open>The rewrite engine (quantum\_analyzer/fix)\<close>

subsection \<open>Syntax trees\<close>

text \<open>
  The part of the libcst tree the fixer reads or builds: names, simple string
  literals (the value includes prefix and quotes), attribute accesses, calls with
  their arguments (keyword and value), and formatted strings with their parts, start
  and end. Every other kind of node is a \<open>Node\<close> with its kind and children.
\<close>

datatype expr =
    Name string
  | SimpleString string
  | Attribute expr string
  | Call expr "arg list"
  | FormattedString "fpart list" string string
  | Node string "expr list"
and arg = Arg "string option" expr
and fpart = FormattedStringText string | FormattedStringExpression expr

text \<open>
  What the fixer calls outside the repository. Of libcst: the parser (\<open>None\<close> when
  \<open>parse_module\<close> raises) and the code generator. Of Python, for text that is not
  plain ASCII: \<open>str.isdigit()\<close> and \<open>int()\<close> (\<open>None\<close> when it raises \<open>ValueError\<close>), which
  depend on the Unicode tables of the interpreter; and the interpreter's limit on the
  number of digits \<open>int()\<close> converts (4300 unless changed, 0 for no limit). On ASCII
  text both functions are written out below.
\<close>

record cst =
  parse_module :: "string \<Rightarrow> expr option"
  code :: "expr \<Rightarrow> string"
  str_isdigit :: "string \<Rightarrow> bool"
  str_int :: "string \<Rightarrow> nat option"
  int_max_str_digits :: nat

definition dquote :: char where
  "dquote = CHR 0x22"

definition squote :: char where
  "squote = CHR 0x27"

subsection \<open>Placeholders\<close>

definition brace :: "char \<Rightarrow> bool" where
  "brace c = (c = CHR ''{'' \<or> c = CHR ''}'')"

text \<open>
  \<open>re.finditer(r'\{([^{}]*)\}', template)\<close>: the non-overlapping matches from left to
  right, each as (start, end, group 1). At an opening brace the class \<open>[^{}]*\<close> takes
  every character up to the next brace, and the match succeeds when that brace is a
  closing one; otherwise the search goes on at the next position.
\<close>

function finditer :: "nat \<Rightarrow> string \<Rightarrow> (nat \<times> nat \<times> string) list" where
  "finditer pos [] = []"
| "finditer pos (c # cs) =
     (if c = CHR ''{'' then
        (case dropWhile (\<lambda>x. \<not> brace x) cs of
           [] \<Rightarrow> finditer (Suc pos) cs
         | d # rest \<Rightarrow>
             if d = CHR ''}'' then
               (let body = takeWhile (\<lambda>x. \<not> brace x) cs
                in (pos, pos + length body + 2, body) # finditer (pos + length body + 2) rest)
             else finditer (Suc pos) cs)
      else finditer (Suc pos) cs)"
  by pat_completeness auto
termination
proof (relation "measure (\<lambda>(pos, s). length s)", goal_cases)
  case (3 pos c cs d rest body)
  have "length (dropWhile (\<lambda>x. \<not> brace x) cs) \<le> length cs"
    by (rule length_dropWhile_le)
  with 3 show ?case by simp
qed simp_all

definition ascii :: "string \<Rightarrow> bool" where
  "ascii s = list_all (\<lambda>c. (of_char c :: nat) < 128) s"

definition isdigit_char :: "char \<Rightarrow> bool" where
  "isdigit_char c = (let n = (of_char c :: nat) in 48 \<le> n \<and> n \<le> 57)"

text \<open>\<open>placeholder.isdigit()\<close>: on ASCII text, not empty and decimal digits only.\<close>

definition isdigit :: "cst \<Rightarrow> string \<Rightarrow> bool" where
  "isdigit l s = (if ascii s then s \<noteq> [] \<and> list_all isdigit_char s else str_isdigit l s)"

definition digits_value :: "string \<Rightarrow> nat" where
  "digits_value s = foldl (\<lambda>a c. 10 * a + (of_char c - 48)) 0 s"

text \<open>
  \<open>int(placeholder)\<close> for a placeholder that passed \<open>isdigit()\<close>: the decimal value, or
  \<open>ValueError\<close> when the text has more digits than the interpreter converts or has a
  digit that is not a decimal digit.
\<close>

definition int_of :: "cst \<Rightarrow> string \<Rightarrow> error + nat" where
  "int_of l s =
     (if ascii s then
        (if s \<noteq> [] \<and> list_all isdigit_char s then
           (if 0 < int_max_str_digits l \<and> int_max_str_digits l < length s
            then Inl (ValueError ''Exceeds the limit for integer string conversion'')
            else Inr (digits_value s))
         else Inl (ValueError (''invalid literal for int() with base 10: '' @ s)))
      else
        (case str_int l s of
           None \<Rightarrow> Inl (ValueError (''invalid literal for int() with base 10: '' @ s))
         | Some n \<Rightarrow> Inr n))"

definition slice :: "string \<Rightarrow> nat \<Rightarrow> nat \<Rightarrow> string" where
  "slice s i j = take (j - i) (drop i s)"

text \<open>
  One iteration of the loop over the placeholders in \<open>leave_Call\<close>. The state is
  \<open>(parts, last_end, idx)\<close>; the match is \<open>(start, end, placeholder)\<close>. The iteration
  ends with the new state or with the exception of \<open>int()\<close>.
\<close>

definition process_match ::
  "cst \<Rightarrow> string \<Rightarrow> expr list \<Rightarrow> (string \<times> expr) list \<Rightarrow>
   fpart list \<times> nat \<times> nat \<Rightarrow> nat \<times> nat \<times> string \<Rightarrow> error + fpart list \<times> nat \<times> nat" where
  "process_match l template positional_args keyword_args st m =
     (case st of (parts, last_end, idx) \<Rightarrow>
      case m of (start, end', placeholder) \<Rightarrow>
        (let parts1 = (if start > last_end
                       then parts @ [FormattedStringText (slice template last_end start)]
                       else parts)
         in if placeholder = [] then
              (if idx < length positional_args
               then Inr (parts1 @ [FormattedStringExpression (positional_args ! idx)], end', idx + 1)
               else Inr (parts1, end', idx))
            else if isdigit l placeholder then
              (case int_of l placeholder of
                 Inl e \<Rightarrow> Inl e
               | Inr index \<Rightarrow>
                   if index < length positional_args
                   then Inr (parts1 @ [FormattedStringExpression (positional_args ! index)], end', idx)
                   else Inr (parts1, end', idx))
            else
              (case map_of keyword_args placeholder of
                 Some e \<Rightarrow> Inr (parts1 @ [FormattedStringExpression e], end', idx)
               | None \<Rightarrow> Inr (parts1, end', idx))))"

fun process_matches ::
  "cst \<Rightarrow> string \<Rightarrow> expr list \<Rightarrow> (string \<times> expr) list \<Rightarrow>
   fpart list \<times> nat \<times> nat \<Rightarrow> (nat \<times> nat \<times> string) list \<Rightarrow> error + fpart list \<times> nat \<times> nat" where
  "process_matches l template positional_args keyword_args st [] = Inr st"
| "process_matches l template positional_args keyword_args st (m # ms) =
     (case process_match l template positional_args keyword_args st m of
        Inl e \<Rightarrow> Inl e
      | Inr st' \<Rightarrow> process_matches l template positional_args keyword_args st' ms)"

definition format_parts ::
  "cst \<Rightarrow> string \<Rightarrow> expr list \<Rightarrow> (string \<times> expr) list \<Rightarrow> error + fpart list" where
  "format_parts l template positional_args keyword_args =
     (case process_matches l template positional_args keyword_args ([], 0, 0) (finditer 0 template) of
        Inl e \<Rightarrow> Inl e
      | Inr (parts, last_end, idx) \<Rightarrow>
          Inr (if last_end < length template
               then parts @ [FormattedStringText (drop last_end template)]
               else parts))"

text \<open>The loop over \<open>original_node.args\<close>.\<close>

fun split_args :: "arg list \<Rightarrow> expr list \<Rightarrow> (string \<times> expr) list \<Rightarrow> expr list \<times> (string \<times> expr) list" where
  "split_args [] positional_args keyword_args = (positional_args, keyword_args)"
| "split_args (Arg None v # rest) positional_args keyword_args =
     split_args rest (positional_args @ [v]) keyword_args"
| "split_args (Arg (Some k) v # rest) positional_args keyword_args =
     split_args rest positional_args (AList.update k v keyword_args)"

text \<open>\<open>template.startswith(("'", '"'))\<close> and \<open>template[1:-1]\<close>.\<close>

definition strip_quotes :: "string \<Rightarrow> string" where
  "strip_quotes template =
     (case template of
        [] \<Rightarrow> template
      | c # _ \<Rightarrow> if c = squote \<or> c = dquote then butlast (tl template) else template)"

subsection \<open>The transformer\<close>

text \<open>
  \<open>leave_Call\<close> with the counter \<open>self.changes\<close> passed through. The template and the
  arguments are read from \<open>original_node\<close>. The call returns the node and the counter,
  or is left by the exception of \<open>int()\<close>.
\<close>

definition is_format_call :: "expr \<Rightarrow> bool" where
  "is_format_call e =
     (case e of Call (Attribute (SimpleString t) a) args \<Rightarrow> a = ''format'' | _ \<Rightarrow> False)"

definition leave_Call :: "cst \<Rightarrow> expr \<Rightarrow> expr \<Rightarrow> nat \<Rightarrow> error + expr \<times> nat" where
  "leave_Call l original_node updated_node changes =
     (case original_node of
        Call (Attribute (SimpleString t) a) args \<Rightarrow>
          if a = ''format'' then
            (case split_args args [] [] of
               (positional_args, keyword_args) \<Rightarrow>
                 (case format_parts l (strip_quotes t) positional_args keyword_args of
                    Inl e \<Rightarrow> Inl e
                  | Inr parts \<Rightarrow>
                      Inr (FormattedString parts [CHR ''f'', dquote] [dquote], changes + 1)))
          else Inr (updated_node, changes)
      | _ \<Rightarrow> Inr (updated_node, changes))"

text \<open>
  \<open>node.visit(self)\<close>: libcst visits the children of a node first and rebuilds the node
  from the results; for a call it then hands the node as it was and the rebuilt node
  to \<open>leave_Call\<close>. An exception of \<open>leave_Call\<close> ends the whole visit.
\<close>

fun visit :: "cst \<Rightarrow> expr \<Rightarrow> nat \<Rightarrow> error + expr \<times> nat"
and visit_arg :: "cst \<Rightarrow> arg \<Rightarrow> nat \<Rightarrow> error + arg \<times> nat"
and visit_fpart :: "cst \<Rightarrow> fpart \<Rightarrow> nat \<Rightarrow> error + fpart \<times> nat"
and visit_exprs :: "cst \<Rightarrow> expr list \<Rightarrow> nat \<Rightarrow> error + expr list \<times> nat"
and visit_args :: "cst \<Rightarrow> arg list \<Rightarrow> nat \<Rightarrow> error + arg list \<times> nat"
and visit_fparts :: "cst \<Rightarrow> fpart list \<Rightarrow> nat \<Rightarrow> error + fpart list \<times> nat" where
  "visit l (Name s) n = Inr (Name s, n)"
| "visit l (SimpleString s) n = Inr (SimpleString s, n)"
| "visit l (Attribute v a) n =
     (case visit l v n of Inl e \<Rightarrow> Inl e | Inr (v', n1) \<Rightarrow> Inr (Attribute v' a, n1))"
| "visit l (Call f args) n =
     (case visit l f n of
        Inl e \<Rightarrow> Inl e
      | Inr (f', n1) \<Rightarrow>
          (case visit_args l args n1 of
             Inl e \<Rightarrow> Inl e
           | Inr (args', n2) \<Rightarrow> leave_Call l (Call f args) (Call f' args') n2))"
| "visit l (FormattedString ps s e) n =
     (case visit_fparts l ps n of Inl x \<Rightarrow> Inl x | Inr (ps', n1) \<Rightarrow> Inr (FormattedString ps' s e, n1))"
| "visit l (Node k cs) n =
     (case visit_exprs l cs n of Inl e \<Rightarrow> Inl e | Inr (cs', n1) \<Rightarrow> Inr (Node k cs', n1))"
| "visit_arg l (Arg k v) n =
     (case visit l v n of Inl e \<Rightarrow> Inl e | Inr (v', n1) \<Rightarrow> Inr (Arg k v', n1))"
| "visit_fpart l (FormattedStringText s) n = Inr (FormattedStringText s, n)"
| "visit_fpart l (FormattedStringExpression e) n =
     (case visit l e n of Inl x \<Rightarrow> Inl x | Inr (e', n1) \<Rightarrow> Inr (FormattedStringExpression e', n1))"
| "visit_exprs l [] n = Inr ([], n)"
| "visit_exprs l (e # es) n =
     (case visit l e n of
        Inl x \<Rightarrow> Inl x
      | Inr (e', n1) \<Rightarrow>
          (case visit_exprs l es n1 of Inl x \<Rightarrow> Inl x | Inr (es', n2) \<Rightarrow> Inr (e' # es', n2)))"
| "visit_args l [] n = Inr ([], n)"
| "visit_args l (a # as) n =
     (case visit_arg l a n of
        Inl x \<Rightarrow> Inl x
      | Inr (a', n1) \<Rightarrow>
          (case visit_args l as n1 of Inl x \<Rightarrow> Inl x | Inr (as', n2) \<Rightarrow> Inr (a' # as', n2)))"
| "visit_fparts l [] n = Inr ([], n)"
| "visit_fparts l (p # ps) n =
     (case visit_fpart l p n of
        Inl x \<Rightarrow> Inl x
      | Inr (p', n1) \<Rightarrow>
          (case visit_fparts l ps n1 of Inl x \<Rightarrow> Inl x | Inr (ps', n2) \<Rightarrow> Inr (p' # ps', n2)))"

text \<open>
  \<open>FormatToFString.apply\<close>: the counter is reset, and any exception, of the parser or
  of the visit, is answered with the source text and zero.
\<close>

definition FormatToFString_apply :: "cst \<Rightarrow> string \<Rightarrow> string \<times> nat" where
  "FormatToFString_apply l source_code =
     (case parse_module l source_code of
        None \<Rightarrow> (source_code, 0)
      | Some module \<Rightarrow>
          (case visit l module 0 of
             Inl e \<Rightarrow> (source_code, 0)
           | Inr (modified_module, changes) \<Rightarrow> (code l modified_module, changes)))"

subsection \<open>The fixer registry and \<open>apply_fixes\<close>\<close>

datatype fixer = FormatToFString

definition AVAILABLE_FIXERS :: "(string \<times> fixer) list" where
  "AVAILABLE_FIXERS = [(''format_to_fstring'', FormatToFString)]"

fun join :: "string \<Rightarrow> string list \<Rightarrow> string" where
  "join sep [] = []"
| "join sep [x] = x"
| "join sep (x # y # ys) = x @ sep @ join sep (y # ys)"

definition get_fixer :: "string \<Rightarrow> error + fixer" where
  "get_fixer fixer_name =
     (case map_of AVAILABLE_FIXERS fixer_name of
        None \<Rightarrow>
          Inl (ValueError (''Fixer '' @ fixer_name @ '' not found. Available fixers: ''
                           @ join '', '' (map fst AVAILABLE_FIXERS)))
      | Some f \<Rightarrow> Inr f)"

definition fixer_apply :: "cst \<Rightarrow> fixer \<Rightarrow> string \<Rightarrow> string \<times> nat" where
  "fixer_apply l f content = (case f of FormatToFString \<Rightarrow> FormatToFString_apply l content)"

text \<open>
  The files \<open>apply_fixes\<close> reads and writes: \<open>read_text p\<close> is \<open>None\<close> when reading
  raises, and \<open>write_text\<close> raises on a path that is not writable.
\<close>

record fs =
  read_text :: "string \<Rightarrow> string option"
  can_write :: "string \<Rightarrow> bool"

definition write_text :: "fs \<Rightarrow> string \<Rightarrow> string \<Rightarrow> fs option" where
  "write_text f p c =
     (if can_write f p then Some (f\<lparr>read_text := (read_text f)(p := Some c)\<rparr>) else None)"

definition endswith :: "string \<Rightarrow> string \<Rightarrow> bool" where
  "endswith s suffix = (length suffix \<le> length s \<and> drop (length s - length suffix) s = suffix)"

definition path_name :: "string \<Rightarrow> string" where
  "path_name p = rev (takeWhile (\<lambda>c. c \<noteq> CHR ''/'') (rev p))"

definition error_str :: "error \<Rightarrow> string" where
  "error_str e = (case e of ValueError m \<Rightarrow> m | KeyError m \<Rightarrow> m | AttributeError m \<Rightarrow> m)"

text \<open>
  The loop over the fixer names; the state is \<open>(content, fixes_applied)\<close> and the
  lines printed so far. The handler of \<open>Exception\<close> inside the loop prints and goes on
  with the next name.
\<close>

fun apply_each ::
  "cst \<Rightarrow> string \<Rightarrow> string list \<Rightarrow> string \<times> nat \<times> string list \<Rightarrow> string \<times> nat \<times> string list" where
  "apply_each l file_path [] st = st"
| "apply_each l file_path (fixer_name # rest) (content, fixes_applied, printed) =
     (case get_fixer fixer_name of
        Inl e \<Rightarrow>
          apply_each l file_path rest
            (content, fixes_applied,
             printed @ [''Error applying fixer '' @ fixer_name @ '' to '' @ file_path @ '': '' @ error_str e])
      | Inr fixer_class \<Rightarrow>
          (case fixer_apply l fixer_class content of
             (new_content, applied) \<Rightarrow>
               if applied > 0
               then apply_each l file_path rest (new_content, fixes_applied + applied, printed)
               else apply_each l file_path rest (content, fixes_applied, printed)))"

text \<open>
  \<open>apply_fixes\<close>: the value returned (or the exception that leaves the function), the
  files afterwards and the lines printed.
\<close>

definition apply_fixes ::
  "cst \<Rightarrow> fs \<Rightarrow> string \<Rightarrow> string list \<Rightarrow> (error + nat) \<times> fs \<times> string list" where
  "apply_fixes l f file_path fixers =
     (if \<not> endswith (path_name file_path) ''.py'' then (Inr 0, f, [])
      else
        (case read_text f file_path of
           None \<Rightarrow> (Inr 0, f, [''Error reading file '' @ file_path])
         | Some content \<Rightarrow>
             (case apply_each l file_path fixers (content, 0, []) of
                (content', fixes_applied, printed) \<Rightarrow>
                  if fixes_applied > 0 then
                    (case write_text f file_path content' of
                       None \<Rightarrow> (Inr 0, f, printed @ [''Error writing to file '' @ file_path])
                     | Some f' \<Rightarrow> (Inr fixes_applied, f', printed))
                  else (Inr fixes_applied, f, printed))))"

section \<open>Concrete inputs\<close>

definition ex_patterns :: "ImprovementPattern list" where
  "ex_patterns =
     [\<lparr>regex = ''return'', ideas = [''Validate return values''], severity = WARNING,
       tags = [''return'']\<rparr>,
      \<lparr>regex = ''import random'', ideas = [''Use a safer RNG''], severity = CRITICAL,
       tags = [''import'']\<rparr>]"

text \<open>
  A world with two Python files under \<open>/proj\<close>, of which \<open>b.py\<close> cannot be read, and a
  matcher that finds an expression at the start of a line.
\<close>

definition ex_world :: world where
  "ex_world =
     \<lparr>re_search = (\<lambda>r l. take (length r) l = r),
      re_valid = (\<lambda>r. r \<noteq> ''(''),
      readlines = (\<lambda>p. if p = ''/proj/a.py'' then Some [''import random'', ''  return 1''] else None),
      rglob_py = (\<lambda>d. [''/proj/a.py'', ''/proj/b.py'']),
      relative_to = (\<lambda>p d. drop (Suc (length d)) p)\<rparr>"

definition ex_pa :: "bool \<Rightarrow> ProjectAnalyzer" where
  "ex_pa par = ProjectAnalyzer_init ''/proj'' ex_patterns INFO None par"

definition ex_m1 :: CodeLine where
  "ex_m1 = \<lparr>cl_line = ''return 1'', cl_ideas = [''first''], cl_severity = INFO, cl_tags = []\<rparr>"

definition ex_m2 :: CodeLine where
  "ex_m2 = \<lparr>cl_line = ''return 1'', cl_ideas = [''second''], cl_severity = WARNING, cl_tags = []\<rparr>"


text \<open>
  The call \<open>"{}".format(x)\<close>; the call \<open>"{}".format('{}'.format(x))\<close> with a format
  call as its argument; the call \<open>r"{}".format(x)\<close> on a prefixed literal; the call
  \<open>"""a{}""".format(x)\<close> on a triple-quoted literal; and the call on the literal
  \<open>"{\<close>U+00B2\<open>}"\<close>, whose placeholder is the superscript two (bytes C2 B2).
\<close>

definition ex_inner :: expr where
  "ex_inner = Call (Attribute (SimpleString ([squote] @ ''{}'' @ [squote])) ''format'') [Arg None (Name ''x'')]"

definition ex_simple :: expr where
  "ex_simple = Call (Attribute (SimpleString ([dquote] @ ''{}'' @ [dquote])) ''format'') [Arg None (Name ''x'')]"

definition ex_nested :: expr where
  "ex_nested = Call (Attribute (SimpleString ([dquote] @ ''{}'' @ [dquote])) ''format'') [Arg None ex_inner]"

definition ex_raw :: expr where
  "ex_raw = Call (Attribute (SimpleString (''r'' @ [dquote] @ ''{}'' @ [dquote])) ''format'') [Arg None (Name ''x'')]"

definition ex_triple :: expr where
  "ex_triple =
     Call (Attribute (SimpleString ([dquote, dquote, dquote] @ ''a{}'' @ [dquote, dquote, dquote])) ''format'')
       [Arg None (Name ''x'')]"

definition superscript_two :: string where
  "superscript_two = [CHR 0xC2, CHR 0xB2]"

definition ex_super :: expr where
  "ex_super =
     Call (Attribute (SimpleString ([dquote] @ ''{'' @ superscript_two @ ''}'' @ [dquote])) ''format'')
       [Arg None (Name ''x'')]"

definition fstring :: "fpart list \<Rightarrow> expr" where
  "fstring ps = FormattedString ps [CHR ''f'', dquote] [dquote]"

text \<open>
  What libcst does on the texts of these trees: each source text parses to its
  tree, the rewritten trees print as \<open>f"{x}"\<close>, \<open>f"{'{}'.format(x)}"\<close> and
  \<open>f"""a{x}"""\<close>, and the second of these parses again. Every other text is taken as
  unparsable. What Python does on non-ASCII text: the superscript two is a digit for
  \<open>str.isdigit()\<close>, and \<open>int()\<close> rejects it.
\<close>

definition ex_texts :: "(string \<times> expr) list" where
  "ex_texts =
     [([dquote] @ ''{}'' @ [dquote] @ ''.format(x)'', ex_simple),
      ([dquote] @ ''{}'' @ [dquote] @ ''.format('' @ [squote] @ ''{}'' @ [squote] @ ''.format(x))'', ex_nested),
      ([dquote, dquote, dquote] @ ''a{}'' @ [dquote, dquote, dquote] @ ''.format(x)'', ex_triple),
      ([dquote] @ ''{'' @ superscript_two @ ''}'' @ [dquote] @ ''.format(x)'', ex_super),
      (''f'' @ [dquote] @ ''{x}'' @ [dquote], fstring [FormattedStringExpression (Name ''x'')]),
      (''f'' @ [dquote] @ ''{'' @ [squote] @ ''{}'' @ [squote] @ ''.format(x)}'' @ [dquote],
       fstring [FormattedStringExpression ex_inner]),
      (''f'' @ [dquote, dquote, dquote] @ ''a{x}'' @ [dquote, dquote, dquote],
       fstring [FormattedStringText ([dquote, dquote] @ ''a''), FormattedStringExpression (Name ''x''),
                FormattedStringText [dquote, dquote]])]"

definition ex_cst :: cst where
  "ex_cst =
     \<lparr>parse_module = map_of ex_texts,
      code = (\<lambda>t. case map_of (map (\<lambda>(s, t). (t, s)) ex_texts) t of Some s \<Rightarrow> s | None \<Rightarrow> []),
      str_isdigit = (\<lambda>s. s = superscript_two),
      str_int = (\<lambda>s. None),
      int_max_str_digits = 4300\<rparr>"

definition ex_fs :: fs where
  "ex_fs =
     \<lparr>read_text = (\<lambda>p. if p = ''a.py'' then Some ([dquote] @ ''{}'' @ [dquote] @ ''.format(x)'') else None),
      can_write = (\<lambda>p. True)\<rparr>"

section \<open>Properties of the pattern-matching engine\<close>

lemmas ex_defs = ex_world_def ex_patterns_def ex_pa_def ProjectAnalyzer_init_def CodeAnalyzer_init_def

lemmas line_defs = analyze_line_def strip_def ws_at_def whitespace_def should_include_pattern_def
  make_CodeLine_def

subsection \<open>Severity threshold\<close>

lemma match_patterns_mem:
  "c \<in> set (match_patterns w a l ps) \<Longrightarrow>
   \<exists>p \<in> set ps. should_include_pattern a p \<and> re_search w (regex p) l \<and> c = make_CodeLine l p"
  by (induction ps) (auto split: if_splits)

lemma should_include_rank:
  "should_include_pattern a p \<Longrightarrow> severity_values (min_severity a) \<le> severity_values (severity p)"
  by (auto simp: should_include_pattern_def split: if_splits)

lemma analyze_line_mem:
  "c \<in> set (analyze_line w a line0) \<Longrightarrow> c \<in> set (match_patterns w a (strip line0) (patterns a))"
  by (auto simp: analyze_line_def Let_def split: if_splits)

text \<open>
  Claim C3. Severity threshold filtering is sound: every match that \<open>analyze_line\<close>
  returns was built from one of the configured patterns whose severity rank is at
  least the rank of the configured minimum severity, so the match itself has such a
  rank; in particular, with the minimum severity \<open>critical\<close> no returned match has
  severity \<open>info\<close> or \<open>warning\<close>. This holds for every line, every pattern list and
  every behaviour of the regular-expression engine.
\<close>

theorem analyze_line_severity_sound:
  assumes "c \<in> set (analyze_line w a line0)"
  shows "(\<exists>p \<in> set (patterns a). c = make_CodeLine (strip line0) p
            \<and> severity_values (min_severity a) \<le> severity_values (severity p))
         \<and> severity_values (min_severity a) \<le> severity_values (cl_severity c)
         \<and> (min_severity a = CRITICAL \<longrightarrow> cl_severity c \<noteq> INFO \<and> cl_severity c \<noteq> WARNING)"
proof -
  from assms obtain p where p: "p \<in> set (patterns a)" "should_include_pattern a p"
      "c = make_CodeLine (strip line0) p"
    using analyze_line_mem match_patterns_mem by blast
  have r: "severity_values (min_severity a) \<le> severity_values (severity p)"
    using p(2) by (rule should_include_rank)
  have s: "cl_severity c = severity p" using p(3) by (simp add: make_CodeLine_def)
  have "min_severity a = CRITICAL \<longrightarrow> cl_severity c \<noteq> INFO \<and> cl_severity c \<noteq> WARNING"
    using r s by (cases "severity p") auto
  with p r s show ?thesis by auto
qed

theorem analyze_line_severity_sound_witness:
  "make_CodeLine ''import random'' (ex_patterns ! 1)
     \<in> set (analyze_line ex_world (CodeAnalyzer_init ex_patterns CRITICAL None) ''  import random  '')
   \<and> cl_severity (make_CodeLine ''import random'' (ex_patterns ! 1)) \<noteq> INFO
   \<and> cl_severity (make_CodeLine ''import random'' (ex_patterns ! 1)) \<noteq> WARNING"
proof -
  have h: "make_CodeLine ''import random'' (ex_patterns ! 1)
     \<in> set (analyze_line ex_world (CodeAnalyzer_init ex_patterns CRITICAL None) ''  import random  '')"
    by (simp add: ex_defs line_defs)
  show ?thesis
    using h analyze_line_severity_sound[OF h] by (simp add: CodeAnalyzer_init_def)
qed

subsection \<open>The result store\<close>

lemma lookup_set_line:
  "lookup (set_line p n e rs) p' n' = (if p' = p \<and> n' = n then Some e else lookup rs p' n')"
  by (simp add: lookup_def set_line_def AList.update_conv' split: option.splits)

lemma lookup_add_lines:
  "lookup (add_lines p fr rs) p' n =
     (if p' = p then (case map_of (rev fr) n of Some c \<Rightarrow> Some (entry_of c) | None \<Rightarrow> lookup rs p' n)
      else lookup rs p' n)"
proof (induction fr arbitrary: rs)
  case Nil
  then show ?case by simp
next
  case (Cons x fr)
  obtain m c where x: "x = (m, c)" by (cases x)
  show ?case
    by (simp add: x Cons.IH lookup_set_line map_add_def split: option.splits)
qed

lemma map_of_rev_distinct: "distinct (map fst xs) \<Longrightarrow> map_of (rev xs) = map_of xs"
proof (induction xs)
  case Nil
  then show ?case by simp
next
  case (Cons x xs)
  then have "map_of xs (fst x) = None"
    by (simp add: map_of_eq_None_iff)
  with Cons show ?case
    by (cases x) (auto simp: fun_eq_iff map_add_def split: option.splits)
qed

lemma lookup_add_file_results:
  "distinct (map fst fr) \<Longrightarrow> lookup (add_file_results rs p fr) p' n =
     (if p' = p then (case map_of fr n of Some c \<Rightarrow> Some (entry_of c) | None \<Rightarrow> lookup rs p' n)
      else lookup rs p' n)"
  by (auto simp: add_file_results_def lookup_add_lines map_of_rev_distinct)

lemma set_line_triv: "lookup rs p n = Some e \<Longrightarrow> set_line p n e rs = rs"
  by (auto simp: lookup_def set_line_def AList.update_triv split: option.splits)

lemma add_lines_triv:
  "(\<And>n c. (n, c) \<in> set fr \<Longrightarrow> lookup rs p n = Some (entry_of c)) \<Longrightarrow> add_lines p fr rs = rs"
proof (induction fr arbitrary: rs)
  case Nil
  then show ?case by simp
next
  case (Cons x fr)
  obtain m c where x: "x = (m, c)" by (cases x)
  have "set_line p m (entry_of c) rs = rs"
    using Cons.prems[of m c] by (simp add: x set_line_triv)
  then show ?case using Cons by (simp add: x)
qed

lemma add_file_results_again:
  assumes "distinct (map fst fr)"
  shows "add_file_results (add_file_results rs p fr) p fr = add_file_results rs p fr"
proof (cases "fr = []")
  case True
  then show ?thesis by (simp add: add_file_results_def)
next
  case False
  have "add_lines p fr (add_lines p fr rs) = add_lines p fr rs"
  proof (rule add_lines_triv)
    fix n c assume "(n, c) \<in> set fr"
    then have "map_of fr n = Some c" using assms by simp
    then show "lookup (add_lines p fr rs) p n = Some (entry_of c)"
      using assms by (simp add: lookup_add_lines map_of_rev_distinct)
  qed
  then show ?thesis by (simp add: add_file_results_def)
qed

text \<open>
  Claim C1, as the code has it. \<open>add_file_results\<close> assigns without looking: adding a
  match for a path and line that is already present replaces the stored match, so
  after two adds for the same path and line the second match is the one retained,
  and a line that the second file result does not contain keeps what it had. Adding
  the same file result again leaves the store as it was, and so does adding an empty
  file result.
\<close>

theorem add_file_results_last_wins:
  assumes "distinct (map fst fr2)"
  shows "(map_of fr2 n = Some c2 \<longrightarrow>
            lookup (add_file_results (add_file_results rs p fr1) p fr2) p n = Some (entry_of c2))
       \<and> (map_of fr2 n = None \<longrightarrow>
            lookup (add_file_results (add_file_results rs p fr1) p fr2) p n
              = lookup (add_file_results rs p fr1) p n)
       \<and> add_file_results (add_file_results rs p fr2) p fr2 = add_file_results rs p fr2
       \<and> add_file_results rs p [] = rs"
proof -
  have "add_file_results rs p [] = rs"
    by (simp add: add_file_results_def)
  then show ?thesis
    using assms by (auto simp: lookup_add_file_results add_file_results_again)
qed

theorem add_file_results_last_wins_witness:
  "distinct (map fst [(1::nat, ex_m2)])
   \<and> map_of [(1::nat, ex_m2)] 1 = Some ex_m2
   \<and> lookup (add_file_results (add_file_results [] ''a.py'' [(1, ex_m1)]) ''a.py'' [(1, ex_m2)]) ''a.py'' 1
       = Some (entry_of ex_m2)
   \<and> map_of [(1::nat, ex_m2)] 2 = None
   \<and> lookup (add_file_results (add_file_results [] ''a.py'' [(2, ex_m1)]) ''a.py'' [(1, ex_m2)]) ''a.py'' 2
       = lookup (add_file_results [] ''a.py'' [(2, ex_m1)]) ''a.py'' 2"
  using add_file_results_last_wins[of "[(1, ex_m2)]" 1 ex_m2 "[]" "''a.py''" "[(1, ex_m1)]"]
    add_file_results_last_wins[of "[(1, ex_m2)]" 2 ex_m2 "[]" "''a.py''" "[(2, ex_m1)]"]
  by simp

text \<open>
  The claim C1 as it is stated fails: after two adds for the same path and line the
  first match is no longer the one stored.
\<close>

theorem add_file_results_first_not_retained:
  "lookup (add_file_results (add_file_results [] ''a.py'' [(1, ex_m1)]) ''a.py'' [(1, ex_m2)]) ''a.py'' 1
     \<noteq> Some (entry_of ex_m1)"
  by (simp add: add_file_results_def set_line_def lookup_def entry_of_def ex_m1_def ex_m2_def)

subsection \<open>Parallel and sequential scans\<close>

lemma run_tasks_length: "length (run_tasks f xs sched slots) = length slots"
  by (induction sched arbitrary: slots) auto

lemma run_tasks_nth:
  "length slots = length xs \<Longrightarrow> i < length xs \<Longrightarrow>
   run_tasks f xs sched slots ! i = (if i \<in> set sched then Some (f (xs ! i)) else slots ! i)"
proof (induction sched arbitrary: slots)
  case Nil
  then show ?case by simp
next
  case (Cons j sched)
  then show ?case by (auto simp: nth_list_update)
qed

lemma those_map_Some: "those (map Some ys) = Some ys"
  by (induction ys) auto

lemma executor_map_complete:
  assumes "set sched = {..<length xs}"
  shows "executor_map f xs sched = Some (map f xs)"
proof -
  have "run_tasks f xs sched (replicate (length xs) None) = map Some (map f xs)"
    using assms by (intro nth_equalityI) (simp_all add: run_tasks_length run_tasks_nth)
  then show ?thesis using those_map_Some[of "map f xs"] by (simp add: executor_map_def del: map_map)
qed

lemma add_all_workers:
  "add_all (map (analyze_file_worker w pa) files) rs = analyze_sequential w pa files rs"
  by (induction files arbitrary: rs) (simp_all add: analyze_file_worker_def)

text \<open>
  Claim C4. For a fixed set of files and patterns, a parallel scan in which every
  task completes, in whatever order, returns the same store as the sequential scan:
  the same paths and lines in the same order with the same entries. So every
  function of the store, the serialised JSON report among them, gives the same
  result for both.
\<close>

theorem parallel_equals_sequential:
  assumes "set sched = {..<length (rglob_py w (project_path pa))}"
  shows "analyze w sched (pa\<lparr>parallel := True\<rparr>) = analyze w sched' (pa\<lparr>parallel := False\<rparr>)
       \<and> analyze w sched (pa\<lparr>parallel := True\<rparr>) \<noteq> None
       \<and> map_option (json_dump \<circ> to_dict) (analyze w sched (pa\<lparr>parallel := True\<rparr>))
           = map_option (json_dump \<circ> to_dict) (analyze w sched' (pa\<lparr>parallel := False\<rparr>))"
proof -
  have e: "analyze_file_worker w (pa\<lparr>parallel := True\<rparr>) = analyze_file_worker w pa"
    by (simp add: analyze_file_worker_def fun_eq_iff)
  have s: "analyze_sequential w (pa\<lparr>parallel := b\<rparr>) fs rs = analyze_sequential w pa fs rs" for b fs rs
    by (induction fs arbitrary: rs) simp_all
  have "analyze w sched (pa\<lparr>parallel := True\<rparr>) = analyze w sched' (pa\<lparr>parallel := False\<rparr>)"
    using assms by (simp add: analyze_def executor_map_complete e add_all_workers s)
  moreover have "analyze w sched' (pa\<lparr>parallel := False\<rparr>) \<noteq> None"
    by (simp add: analyze_def)
  ultimately show ?thesis by simp
qed

theorem parallel_equals_sequential_witness:
  "set [1, 0] = {..<length (rglob_py ex_world (project_path (ex_pa False)))}
   \<and> analyze ex_world [1, 0] (ex_pa True) = analyze ex_world [] (ex_pa False)
   \<and> analyze ex_world [1, 0] (ex_pa True) \<noteq> None"
proof -
  have h: "set [1, 0] = {..<length (rglob_py ex_world (project_path (ex_pa False)))}"
    by (auto simp: ex_defs)
  have e: "(ex_pa False)\<lparr>parallel := True\<rparr> = ex_pa True" "(ex_pa False)\<lparr>parallel := False\<rparr> = ex_pa False"
    by (simp_all add: ex_pa_def ProjectAnalyzer_init_def)
  from parallel_equals_sequential[OF h, of "[]" id]
  have "analyze ex_world [1, 0] (ex_pa True) = analyze ex_world [] (ex_pa False)
        \<and> analyze ex_world [1, 0] (ex_pa True) \<noteq> None"
    unfolding e by blast
  with h show ?thesis by blast
qed

subsection \<open>Unreadable files\<close>

lemma analyze_sequential_append:
  "analyze_sequential w pa (xs @ ys) rs = analyze_sequential w pa ys (analyze_sequential w pa xs rs)"
  by (induction xs arbitrary: rs) simp_all

lemma analyze_file_unreadable: "readlines w p = None \<Longrightarrow> analyze_file w a p = []"
  by (simp add: analyze_file_def)

lemma analyze_sequential_skip:
  "readlines w p = None \<Longrightarrow>
   analyze_sequential w pa (xs @ p # ys) rs = analyze_sequential w pa (xs @ ys) rs"
  by (simp add: analyze_sequential_append analyze_file_unreadable add_file_results_def)

lemma scan_lines_distinct:
  "distinct (map fst res) \<Longrightarrow> distinct (map fst (scan_lines w a n ls res))"
  by (induction ls arbitrary: n res) (auto simp: AList.distinct_update split: list.splits)

lemma analyze_file_distinct: "distinct (map fst (analyze_file w a p))"
  by (simp add: analyze_file_def scan_lines_distinct split: option.splits)

lemma lookup_analyze_sequential_other:
  "P \<notin> (\<lambda>f. relative_to w f (project_path pa)) ` set fs \<Longrightarrow>
   lookup (analyze_sequential w pa fs rs) P n = lookup rs P n"
  by (induction fs arbitrary: rs) (auto simp: lookup_add_file_results analyze_file_distinct)

lemma lookup_analyze_sequential:
  assumes "distinct (map (\<lambda>f. relative_to w f (project_path pa)) fs)" and "q \<in> set fs"
  shows "lookup (analyze_sequential w pa fs rs) (relative_to w q (project_path pa)) n =
     (case map_of (analyze_file w (code_analyzer pa) q) n of
        Some c \<Rightarrow> Some (entry_of c)
      | None \<Rightarrow> lookup rs (relative_to w q (project_path pa)) n)"
  using assms
proof (induction fs arbitrary: rs)
  case Nil
  then show ?case by simp
next
  case (Cons f fs)
  show ?case
  proof (cases "q = f")
    case True
    with Cons.prems show ?thesis
      by (auto simp: lookup_analyze_sequential_other lookup_add_file_results analyze_file_distinct)
  next
    case False
    with Cons.prems have q: "q \<in> set fs"
      and ne: "relative_to w q (project_path pa) \<noteq> relative_to w f (project_path pa)"
      by (auto simp: image_iff)
    from Cons.prems have d: "distinct (map (\<lambda>f. relative_to w f (project_path pa)) fs)" by simp
    have "lookup (add_file_results rs (relative_to w f (project_path pa))
                    (analyze_file w (code_analyzer pa) f)) (relative_to w q (project_path pa)) n
            = lookup rs (relative_to w q (project_path pa)) n"
      using ne by (simp add: lookup_add_file_results analyze_file_distinct)
    then show ?thesis
      using Cons.IH[OF d q] by (simp split: option.splits)
  qed
qed

text \<open>
  Claim C8. A file that cannot be read or decoded contributes the empty file result
  and does not abort the scan: in either mode the scan returns, its store is the
  store of the scan of the other files alone, and every line that matched in another
  file is in the store under that file's relative path.
\<close>

theorem unreadable_file_isolated:
  assumes "readlines w p = None"
    and "rglob_py w (project_path pa) = xs @ p # ys"
    and "distinct (map (\<lambda>f. relative_to w f (project_path pa)) (xs @ p # ys))"
    and "parallel pa \<longrightarrow> set sched = {..<length (xs @ p # ys)}"
    and "q \<in> set (xs @ ys)"
    and "map_of (analyze_file w (code_analyzer pa) q) n = Some c"
  shows "analyze_file w (code_analyzer pa) p = []
       \<and> analyze w sched pa = Some (analyze_sequential w pa (xs @ ys) (results pa))
       \<and> (\<exists>rs. analyze w sched pa = Some rs
             \<and> lookup rs (relative_to w q (project_path pa)) n = Some (entry_of c))"
proof -
  have a: "analyze w sched pa = Some (analyze_sequential w pa (xs @ p # ys) (results pa))"
  proof (cases "parallel pa")
    case True
    with assms(4) have "set sched = {..<length (rglob_py w (project_path pa))}"
      using assms(2) by simp
    then show ?thesis
      using True assms(2) add_all_workers[of w pa "xs @ p # ys" "results pa"]
      by (simp add: analyze_def executor_map_complete del: map_append list.map)
  next
    case False
    then show ?thesis using assms(2) by (simp add: analyze_def)
  qed
  have b: "analyze_sequential w pa (xs @ p # ys) (results pa) = analyze_sequential w pa (xs @ ys) (results pa)"
    using assms(1) by (rule analyze_sequential_skip)
  have d: "distinct (map (\<lambda>f. relative_to w f (project_path pa)) (xs @ ys))"
    using assms(3) by auto
  have "lookup (analyze_sequential w pa (xs @ ys) (results pa)) (relative_to w q (project_path pa)) n
          = Some (entry_of c)"
    using lookup_analyze_sequential[OF d assms(5)] assms(6) by simp
  with a b assms(1) show ?thesis by (simp add: analyze_file_unreadable)
qed

theorem unreadable_file_isolated_witness:
  "readlines ex_world ''/proj/b.py'' = None
   \<and> analyze_file ex_world (code_analyzer (ex_pa True)) ''/proj/b.py'' = []
   \<and> (\<exists>rs. analyze ex_world [1, 0] (ex_pa True) = Some rs
         \<and> lookup rs ''a.py'' 2 = Some (entry_of (make_CodeLine ''return 1'' (ex_patterns ! 0))))"
proof -
  have 1: "readlines ex_world ''/proj/b.py'' = None" by (simp add: ex_defs)
  have 2: "rglob_py ex_world (project_path (ex_pa True)) = [''/proj/a.py''] @ ''/proj/b.py'' # []"
    by (simp add: ex_defs)
  have 3: "distinct (map (\<lambda>f. relative_to ex_world f (project_path (ex_pa True)))
                      ([''/proj/a.py''] @ ''/proj/b.py'' # []))"
    by (simp add: ex_defs)
  have 4: "parallel (ex_pa True) \<longrightarrow> set [1, 0] = {..<length ([''/proj/a.py''] @ ''/proj/b.py'' # [])}"
    by auto
  have 5: "''/proj/a.py'' \<in> set ([''/proj/a.py''] @ [])" by simp
  have 6: "map_of (analyze_file ex_world (code_analyzer (ex_pa True)) ''/proj/a.py'') 2
             = Some (make_CodeLine ''return 1'' (ex_patterns ! 0))"
    by (simp add: analyze_file_def ex_defs line_defs)
  have 7: "relative_to ex_world ''/proj/a.py'' (project_path (ex_pa True)) = ''a.py''"
    by (simp add: ex_defs)
  from unreadable_file_isolated[OF 1 2 3 4 5 6]
  have "analyze_file ex_world (code_analyzer (ex_pa True)) ''/proj/b.py'' = []
        \<and> (\<exists>rs. analyze ex_world [1, 0] (ex_pa True) = Some rs
              \<and> lookup rs ''a.py'' 2 = Some (entry_of (make_CodeLine ''return 1'' (ex_patterns ! 0))))"
    unfolding 7 by blast
  with 1 show ?thesis by blast
qed

subsection \<open>Pattern loading\<close>








section \<open>Properties of the rewrite engine\<close>

lemmas parts_defs = format_parts_def process_match_def isdigit_def isdigit_char_def int_of_def
  ascii_def digits_value_def slice_def brace_def

lemmas tree_defs = ex_nested_def ex_inner_def ex_simple_def ex_raw_def ex_triple_def ex_super_def
  superscript_two_def fstring_def leave_Call_def strip_quotes_def dquote_def squote_def

lemmas lib_defs = FormatToFString_apply_def ex_cst_def ex_texts_def

subsection \<open>Unparsable source\<close>

text \<open>
  Claim C7. For every source text that the parser rejects, \<open>FormatToFString.apply\<close>
  returns the text as it was together with a change count of 0; the call returns a
  value and no exception leaves it.
\<close>

theorem apply_unparsable:
  assumes "parse_module l source_code = None"
  shows "FormatToFString_apply l source_code = (source_code, 0)"
  using assms by (simp add: FormatToFString_apply_def)

theorem apply_unparsable_witness:
  "parse_module ex_cst ''def ('' = None \<and> FormatToFString_apply ex_cst ''def ('' = (''def ('', 0)"
proof -
  have h: "parse_module ex_cst ''def ('' = None"
    by (simp add: lib_defs dquote_def squote_def superscript_two_def)
  show ?thesis using h apply_unparsable[OF h] by simp
qed

subsection \<open>Templates with one placeholder\<close>

lemma finditer_no_open: "CHR ''{'' \<notin> set s \<Longrightarrow> finditer pos s = []"
  by (induction s arbitrary: pos) auto

lemma finditer_skip:
  "CHR ''{'' \<notin> set pre \<Longrightarrow> finditer pos (pre @ rest) = finditer (pos + length pre) rest"
  by (induction pre arbitrary: pos) auto

lemma finditer_open:
  assumes "list_all (\<lambda>c. \<not> brace c) body"
  shows "finditer pos (CHR ''{'' # body @ CHR ''}'' # post)
           = (pos, pos + length body + 2, body) # finditer (pos + length body + 2) post"
proof -
  have b: "\<And>x. x \<in> set body \<Longrightarrow> \<not> brace x" using assms by (simp add: list_all_iff)
  have d: "dropWhile (\<lambda>x. \<not> brace x) (body @ CHR ''}'' # post) = CHR ''}'' # post"
    using b by (simp add: dropWhile_append2 brace_def)
  have t: "takeWhile (\<lambda>x. \<not> brace x) (body @ CHR ''}'' # post) = body"
    using b by (simp add: takeWhile_append2 brace_def)
  show ?thesis by (simp add: d t)
qed

lemma no_brace_no_open: "list_all (\<lambda>c. \<not> brace c) s \<Longrightarrow> CHR ''{'' \<notin> set s"
  by (auto simp: list_all_iff brace_def)

lemma finditer_single:
  assumes "list_all (\<lambda>c. \<not> brace c) pre" "list_all (\<lambda>c. \<not> brace c) body"
    "list_all (\<lambda>c. \<not> brace c) post"
  shows "finditer 0 (pre @ CHR ''{'' # body @ CHR ''}'' # post)
           = [(length pre, length pre + length body + 2, body)]"
  using assms
  by (simp add: finditer_skip finditer_open finditer_no_open no_brace_no_open del: finditer.simps)

lemma format_parts_plain:
  assumes "list_all (\<lambda>c. \<not> brace c) body"
  shows "format_parts l body positional_args keyword_args
           = Inr (if body = [] then [] else [FormattedStringText body])"
  using assms by (simp add: format_parts_def finditer_no_open no_brace_no_open)

lemma digits_value_snoc: "digits_value (s @ [c]) = 10 * digits_value s + (of_char c - 48)"
  by (simp add: digits_value_def)

lemma int_of_ascii_digits:
  assumes "ds \<noteq> []" "list_all isdigit_char ds"
    "int_max_str_digits l = 0 \<or> length ds \<le> int_max_str_digits l"
  shows "isdigit l ds \<and> int_of l ds = Inr (digits_value ds)"
proof -
  have "ascii ds"
    using assms(2) by (auto simp: ascii_def isdigit_char_def list_all_iff Let_def)
  then show ?thesis
    using assms by (auto simp: isdigit_def int_of_def)
qed

text \<open>
  A placeholder of ASCII decimal digits, within the number of digits the interpreter
  converts, between literal text without braces: the parts are the text before, the
  positional argument at the value of the digits when there is one, and the text
  after.
\<close>

lemma format_parts_single_indexed:
  assumes "list_all (\<lambda>c. \<not> brace c) pre" "list_all (\<lambda>c. \<not> brace c) post"
    "ds \<noteq> []" "list_all isdigit_char ds"
    "int_max_str_digits l = 0 \<or> length ds \<le> int_max_str_digits l"
  shows "format_parts l (pre @ CHR ''{'' # ds @ CHR ''}'' # post) positional_args keyword_args
           = Inr ((if pre = [] then [] else [FormattedStringText pre])
                  @ (if digits_value ds < length positional_args
                     then [FormattedStringExpression (positional_args ! digits_value ds)] else [])
                  @ (if post = [] then [] else [FormattedStringText post]))"
proof -
  have nb: "list_all (\<lambda>c. \<not> brace c) ds"
    using assms(4) by (auto simp: list_all_iff isdigit_char_def brace_def Let_def)
  have f: "finditer 0 (pre @ CHR ''{'' # ds @ CHR ''}'' # post)
             = [(length pre, length pre + length ds + 2, ds)]"
    using assms(1) nb assms(2) by (rule finditer_single)
  from int_of_ascii_digits[OF assms(3,4,5)]
  have i: "isdigit l ds" "int_of l ds = Inr (digits_value ds)" by simp_all
  show ?thesis
    using assms(3) by (simp add: format_parts_def f process_match_def i slice_def Let_def)
qed

lemma format_parts_indexed_examples:
  "format_parts ex_cst ''{0} {1} {0}'' [a, b] [] =
     Inr [FormattedStringExpression a, FormattedStringText '' '', FormattedStringExpression b,
          FormattedStringText '' '', FormattedStringExpression a]"
  "format_parts ex_cst ''{0}-{2}.'' [a, b] [] =
     Inr [FormattedStringExpression a, FormattedStringText ''-'', FormattedStringText ''.'']"
  "format_parts ex_cst ''{10}'' [a0, a1, a2, a3, a4, a5, a6, a7, a8, a9, a10] [] =
     Inr [FormattedStringExpression a10]"
  by (simp_all add: parts_defs ex_cst_def)

subsection \<open>Digits that are not decimal digits\<close>

text \<open>
  Claim C9 at the source text \<open>"{\<close>U+00B2\<open>}".format(x)\<close>. The body of the placeholder is
  all digits for \<open>str.isdigit()\<close>, so the digit branch is taken, but \<open>int()\<close> rejects
  it: \<open>leave_Call\<close> is left by a \<open>ValueError\<close>, the visit ends, and \<open>apply\<close> returns the
  source as it was with a count of 0, where the claim has the placeholder resolve
  or collapse without an error. A placeholder of 4301 decimal digits is rejected by
  \<open>int()\<close> in the same way.
\<close>

theorem superscript_digit_placeholder_raises:
  "isdigit ex_cst superscript_two
   \<and> leave_Call ex_cst ex_super ex_super 0
       = Inl (ValueError (''invalid literal for int() with base 10: '' @ superscript_two))
   \<and> visit ex_cst ex_super 0
       = Inl (ValueError (''invalid literal for int() with base 10: '' @ superscript_two))
   \<and> FormatToFString_apply ex_cst ([dquote] @ ''{'' @ superscript_two @ ''}'' @ [dquote] @ ''.format(x)'')
       = ([dquote] @ ''{'' @ superscript_two @ ''}'' @ [dquote] @ ''.format(x)'', 0)
   \<and> int_of ex_cst (replicate 4301 (CHR ''1''))
       = Inl (ValueError ''Exceeds the limit for integer string conversion'')"
  by (simp add: lib_defs tree_defs parts_defs list_all_iff)

subsection \<open>Delimiters of the emitted string\<close>

text \<open>
  Claim C10, as the code has it. Every rewritten format call becomes a formatted
  string that starts with \<open>f"\<close> and ends with \<open>"\<close>, whatever quotes the receiver
  literal had, and when the literal begins with a single or a double quote the
  template is the literal without its first and its last character. So, for a
  template without braces, a receiver in single quotes is emitted between double
  quotes with its text as it was, a double quote in it included, and does not keep
  its quoting; a receiver in triple double quotes keeps the two quotes that remain
  on either side of the template, which with the delimiters are triple quotes
  again. With a placeholder, \<open>'a{}'.format(x)\<close> becomes \<open>f"a{x}"\<close> and
  \<open>"""a{}""".format(x)\<close> becomes \<open>f"""a{x}"""\<close>.
\<close>

theorem leave_Call_delimiters:
  "(case format_parts l (strip_quotes t) (fst (split_args args [] [])) (snd (split_args args [] [])) of
      Inl e \<Rightarrow> leave_Call l (Call (Attribute (SimpleString t) ''format'') args) u n = Inl e
    | Inr ps \<Rightarrow>
        leave_Call l (Call (Attribute (SimpleString t) ''format'') args) u n
          = Inr (FormattedString ps [CHR ''f'', dquote] [dquote], n + 1))
   \<and> (q = squote \<or> q = dquote \<longrightarrow> strip_quotes (q # body @ [q']) = body)
   \<and> (list_all (\<lambda>c. \<not> brace c) body \<and> body \<noteq> [] \<longrightarrow>
        leave_Call l (Call (Attribute (SimpleString (squote # body @ [squote])) ''format'') args) u n
          = Inr (FormattedString [FormattedStringText body] [CHR ''f'', dquote] [dquote], n + 1))
   \<and> (list_all (\<lambda>c. \<not> brace c) body \<longrightarrow>
        leave_Call l
          (Call (Attribute (SimpleString (dquote # dquote # dquote # body @ [dquote, dquote, dquote]))
                   ''format'') args) u n
          = Inr (FormattedString [FormattedStringText (dquote # dquote # body @ [dquote, dquote])]
                   [CHR ''f'', dquote] [dquote], n + 1))
   \<and> leave_Call l (Call (Attribute (SimpleString ([squote] @ ''a{}'' @ [squote])) ''format'') [Arg None x]) u n
       = Inr (FormattedString [FormattedStringText ''a'', FormattedStringExpression x]
                [CHR ''f'', dquote] [dquote], n + 1)
   \<and> leave_Call l
         (Call (Attribute (SimpleString ([dquote, dquote, dquote] @ ''a{}'' @ [dquote, dquote, dquote]))
                  ''format'') [Arg None x]) u n
       = Inr (FormattedString [FormattedStringText ([dquote, dquote] @ ''a''), FormattedStringExpression x,
                               FormattedStringText [dquote, dquote]]
                [CHR ''f'', dquote] [dquote], n + 1)"
proof -
  have 1: "(case format_parts l (strip_quotes t) (fst (split_args args [] [])) (snd (split_args args [] [])) of
      Inl e \<Rightarrow> leave_Call l (Call (Attribute (SimpleString t) ''format'') args) u n = Inl e
    | Inr ps \<Rightarrow>
        leave_Call l (Call (Attribute (SimpleString t) ''format'') args) u n
          = Inr (FormattedString ps [CHR ''f'', dquote] [dquote], n + 1))"
    by (simp add: leave_Call_def split: prod.splits sum.splits)
  have 2: "q = squote \<or> q = dquote \<longrightarrow> strip_quotes (q # body @ [q']) = body"
    by (simp add: strip_quotes_def)
  have 3: "list_all (\<lambda>c. \<not> brace c) body \<and> body \<noteq> [] \<longrightarrow>
        leave_Call l (Call (Attribute (SimpleString (squote # body @ [squote])) ''format'') args) u n
          = Inr (FormattedString [FormattedStringText body] [CHR ''f'', dquote] [dquote], n + 1)"
    by (simp add: leave_Call_def strip_quotes_def format_parts_plain split: prod.splits)
  have nb: "list_all (\<lambda>c. \<not> brace c) (dquote # body @ [dquote])"
    if "list_all (\<lambda>c. \<not> brace c) body"
    using that by (simp add: brace_def dquote_def)
  have s: "strip_quotes (dquote # dquote # dquote # body @ [dquote, dquote, dquote])
             = dquote # dquote # body @ [dquote, dquote]"
    by (simp add: strip_quotes_def butlast_append)
  have 4: "list_all (\<lambda>c. \<not> brace c) body \<longrightarrow>
        leave_Call l
          (Call (Attribute (SimpleString (dquote # dquote # dquote # body @ [dquote, dquote, dquote]))
                   ''format'') args) u n
          = Inr (FormattedString [FormattedStringText (dquote # dquote # body @ [dquote, dquote])]
                   [CHR ''f'', dquote] [dquote], n + 1)"
  proof
    assume b: "list_all (\<lambda>c. \<not> brace c) body"
    then have "list_all (\<lambda>c. \<not> brace c) (dquote # dquote # body @ [dquote, dquote])"
      by (simp add: brace_def dquote_def)
    from format_parts_plain[OF this]
    show "leave_Call l
          (Call (Attribute (SimpleString (dquote # dquote # dquote # body @ [dquote, dquote, dquote]))
                   ''format'') args) u n
          = Inr (FormattedString [FormattedStringText (dquote # dquote # body @ [dquote, dquote])]
                   [CHR ''f'', dquote] [dquote], n + 1)"
      by (simp add: leave_Call_def s split: prod.splits)
  qed
  have 5: "leave_Call l (Call (Attribute (SimpleString ([squote] @ ''a{}'' @ [squote])) ''format'') [Arg None x]) u n
       = Inr (FormattedString [FormattedStringText ''a'', FormattedStringExpression x]
                [CHR ''f'', dquote] [dquote], n + 1)"
    by (simp add: leave_Call_def strip_quotes_def parts_defs squote_def dquote_def)
  have 6: "leave_Call l
         (Call (Attribute (SimpleString ([dquote, dquote, dquote] @ ''a{}'' @ [dquote, dquote, dquote]))
                  ''format'') [Arg None x]) u n
       = Inr (FormattedString [FormattedStringText ([dquote, dquote] @ ''a''), FormattedStringExpression x,
                               FormattedStringText [dquote, dquote]]
                [CHR ''f'', dquote] [dquote], n + 1)"
    by (simp add: leave_Call_def strip_quotes_def parts_defs squote_def dquote_def)
  from 1 2 3 4 5 6 show ?thesis by blast
qed

theorem leave_Call_delimiters_witness:
  "leave_Call ex_cst (Call (Attribute (SimpleString ([squote] @ ''a{}'' @ [squote])) ''format'') [Arg None (Name ''x'')])
       (Name ''u'') 0
     = Inr (FormattedString [FormattedStringText ''a'', FormattedStringExpression (Name ''x'')]
          [CHR ''f'', dquote] [dquote], 1)
   \<and> (squote = squote \<or> squote = dquote) \<and> strip_quotes (squote # ''a{}'' @ [squote]) = ''a{}''
   \<and> list_all (\<lambda>c. \<not> brace c) (''say '' @ [dquote] @ ''hi'' @ [dquote]) \<and> ''say '' @ [dquote] @ ''hi'' @ [dquote] \<noteq> []
   \<and> leave_Call ex_cst
         (Call (Attribute (SimpleString (squote # (''say '' @ [dquote] @ ''hi'' @ [dquote]) @ [squote])) ''format'') [])
         (Name ''u'') 0
       = Inr (FormattedString [FormattedStringText (''say '' @ [dquote] @ ''hi'' @ [dquote])]
                [CHR ''f'', dquote] [dquote], 1)
   \<and> leave_Call ex_cst
         (Call (Attribute (SimpleString (dquote # dquote # dquote # ''a'' @ [dquote, dquote, dquote])) ''format'') [])
         (Name ''u'') 0
       = Inr (FormattedString [FormattedStringText (dquote # dquote # ''a'' @ [dquote, dquote])]
                [CHR ''f'', dquote] [dquote], 1)"
proof -
  have h: "list_all (\<lambda>c. \<not> brace c) (''say '' @ [dquote] @ ''hi'' @ [dquote])
           \<and> ''say '' @ [dquote] @ ''hi'' @ [dquote] \<noteq> []"
    "list_all (\<lambda>c. \<not> brace c) ''a''"
    by (simp_all add: brace_def dquote_def)
  have a: "format_parts ex_cst (strip_quotes ([squote] @ ''a{}'' @ [squote]))
             (fst (split_args [Arg None (Name ''x'')] [] [])) (snd (split_args [Arg None (Name ''x'')] [] []))
           = Inr [FormattedStringText ''a'', FormattedStringExpression (Name ''x'')]"
    by (simp add: parts_defs strip_quotes_def squote_def dquote_def)
  from leave_Call_delimiters[of ex_cst "[squote] @ ''a{}'' @ [squote]" "[Arg None (Name ''x'')]" "Name ''u''" 0
          squote "''a{}''" squote]
  have 1: "leave_Call ex_cst (Call (Attribute (SimpleString ([squote] @ ''a{}'' @ [squote])) ''format'') [Arg None (Name ''x'')])
       (Name ''u'') 0
     = Inr (FormattedString [FormattedStringText ''a'', FormattedStringExpression (Name ''x'')]
          [CHR ''f'', dquote] [dquote], 1)"
    and 2: "strip_quotes (squote # ''a{}'' @ [squote]) = ''a{}''"
    unfolding a by simp_all
  from leave_Call_delimiters[of ex_cst "[]" "[]" "Name ''u''" 0 squote
          "''say '' @ [dquote] @ ''hi'' @ [dquote]" squote] h(1)
  have 3: "leave_Call ex_cst
         (Call (Attribute (SimpleString (squote # (''say '' @ [dquote] @ ''hi'' @ [dquote]) @ [squote])) ''format'') [])
         (Name ''u'') 0
       = Inr (FormattedString [FormattedStringText (''say '' @ [dquote] @ ''hi'' @ [dquote])]
                [CHR ''f'', dquote] [dquote], 1)"
    by simp
  from leave_Call_delimiters[of ex_cst "[]" "[]" "Name ''u''" 0 squote "''a''" squote] h(2)
  have 4: "leave_Call ex_cst
         (Call (Attribute (SimpleString (dquote # dquote # dquote # ''a'' @ [dquote, dquote, dquote])) ''format'') [])
         (Name ''u'') 0
       = Inr (FormattedString [FormattedStringText (dquote # dquote # ''a'' @ [dquote, dquote])]
                [CHR ''f'', dquote] [dquote], 1)"
    by simp
  from 1 2 3 4 h(1) show ?thesis by simp
qed

text \<open>
  The claim C10 as it is stated fails on a receiver in triple double quotes:
  \<open>"""a{}""".format(x)\<close> becomes \<open>f"""a{x}"""\<close>, with the quoting it had.
\<close>

theorem triple_quoted_receiver_keeps_quotes:
  "leave_Call ex_cst ex_triple ex_triple 0
     = Inr (fstring [FormattedStringText ([dquote, dquote] @ ''a''), FormattedStringExpression (Name ''x''),
                     FormattedStringText [dquote, dquote]], 1)
   \<and> FormatToFString_apply ex_cst ([dquote, dquote, dquote] @ ''a{}'' @ [dquote, dquote, dquote] @ ''.format(x)'')
       = (''f'' @ [dquote, dquote, dquote] @ ''a{x}'' @ [dquote, dquote, dquote], 1)"
  by (simp add: lib_defs tree_defs parts_defs)

subsection \<open>Applying the fixer twice\<close>

text \<open>
  Claim C2 at the source text \<open>"{}".format('{}'.format(x))\<close>. The first application
  counts two changes, one of them for the inner call, but builds the new string from
  the arguments of the original node, so the inner call is still in the output
  \<open>f"{'{}'.format(x)}"\<close>. The second application rewrites that call inside the
  produced string and reports one change, not zero.
\<close>

theorem nested_format_call_rewritten_again:
  "visit l ex_nested 0 = Inr (fstring [FormattedStringExpression ex_inner], 2)
   \<and> visit l (fstring [FormattedStringExpression ex_inner]) 0
       = Inr (fstring [FormattedStringExpression (fstring [FormattedStringExpression (Name ''x'')])], 1)
   \<and> FormatToFString_apply ex_cst
        ([dquote] @ ''{}'' @ [dquote] @ ''.format('' @ [squote] @ ''{}'' @ [squote] @ ''.format(x))'')
       = (''f'' @ [dquote] @ ''{'' @ [squote] @ ''{}'' @ [squote] @ ''.format(x)}'' @ [dquote], 2)
   \<and> snd (FormatToFString_apply ex_cst
             (''f'' @ [dquote] @ ''{'' @ [squote] @ ''{}'' @ [squote] @ ''.format(x)}'' @ [dquote])) = 1"
  by (simp add: lib_defs tree_defs parts_defs)

subsection \<open>Unknown fixers\<close>

lemma apply_each_log:
  "apply_each l p ns (c, n, pr) =
     (case apply_each l p ns (c, n, []) of (c', n', pr') \<Rightarrow> (c', n', pr @ pr'))"
proof (induction ns arbitrary: c n pr)
  case Nil
  then show ?case by simp
next
  case (Cons a ns)
  show ?case
  proof (cases "get_fixer a")
    case (Inl e)
    show ?thesis
      using Cons.IH[of c n "pr @ [''Error applying fixer '' @ a @ '' to '' @ p @ '': '' @ error_str e]"]
        Cons.IH[of c n "[''Error applying fixer '' @ a @ '' to '' @ p @ '': '' @ error_str e]"]
      by (simp add: Inl split: prod.splits)
  next
    case (Inr f)
    obtain c1 k where r: "fixer_apply l f c = (c1, k)" by (cases "fixer_apply l f c")
    show ?thesis
      using Cons.IH[of c1 "n + k" pr] Cons.IH[of c n pr]
      by (simp add: Inr r)
  qed
qed

lemma apply_each_append:
  "apply_each l p (xs @ ys) st = apply_each l p ys (apply_each l p xs st)"
proof (induction xs arbitrary: st)
  case Nil
  then show ?case by simp
next
  case (Cons a xs)
  obtain c n pr where st: "st = (c, n, pr)" by (cases st)
  show ?case
    by (simp add: st Cons.IH split: sum.splits prod.splits)
qed

lemma apply_each_unknown:
  assumes "get_fixer name = Inl e"
  shows "fst (apply_each l p (xs @ name # ys) st) = fst (apply_each l p (xs @ ys) st)
       \<and> fst (snd (apply_each l p (xs @ name # ys) st)) = fst (snd (apply_each l p (xs @ ys) st))"
proof -
  obtain c n pr where m: "apply_each l p xs st = (c, n, pr)" by (cases "apply_each l p xs st")
  have "apply_each l p (xs @ name # ys) st
          = apply_each l p ys (c, n, pr @ [''Error applying fixer '' @ name @ '' to '' @ p @ '': '' @ error_str e])"
    by (simp add: apply_each_append m assms)
  moreover have "apply_each l p (xs @ ys) st = apply_each l p ys (c, n, pr)"
    by (simp add: apply_each_append m)
  ultimately show ?thesis
    using apply_each_log[of l p ys c n "pr @ [''Error applying fixer '' @ name @ '' to '' @ p @ '': '' @ error_str e]"]
      apply_each_log[of l p ys c n pr]
    by (simp split: prod.splits)
qed

lemma apply_fixes_returns: "\<exists>n. fst (apply_fixes l f path ns) = Inr n"
  by (simp add: apply_fixes_def split: option.splits prod.splits)

lemma apply_each_prints:
  assumes "get_fixer name = Inl e"
  shows "(''Error applying fixer '' @ name @ '' to '' @ p @ '': '' @ error_str e)
           \<in> set (snd (snd (apply_each l p (xs @ name # ys) st)))"
proof -
  obtain c n pr where m: "apply_each l p xs st = (c, n, pr)" by (cases "apply_each l p xs st")
  have "apply_each l p (xs @ name # ys) st
          = apply_each l p ys (c, n, pr @ [''Error applying fixer '' @ name @ '' to '' @ p @ '': '' @ error_str e])"
    by (simp add: apply_each_append m assms)
  then show ?thesis
    using apply_each_log[of l p ys c n "pr @ [''Error applying fixer '' @ name @ '' to '' @ p @ '': '' @ error_str e]"]
    by (simp split: prod.splits)
qed

text \<open>
  Claim C5, as the code has it. For an identifier that is not in the registry,
  \<open>get_fixer\<close> fails with an error that names the identifier and the known
  identifiers. \<open>apply_fixes\<close> catches that error inside its loop, prints it and goes
  on with the next identifier: the call returns a count and does not fail, and both
  the count and the files afterwards are those of the same call without the unknown
  identifier. With the unknown identifier alone no file is changed. The loop is
  reached, and the error printed, when the path names a \<open>.py\<close> file that can be read.
\<close>

theorem unknown_fixer_skipped:
  assumes "name \<notin> fst ` set AVAILABLE_FIXERS"
  shows "get_fixer name = Inl (ValueError (''Fixer '' @ name @ '' not found. Available fixers: ''
                                            @ join '', '' (map fst AVAILABLE_FIXERS)))
       \<and> (\<exists>n. fst (apply_fixes l f path (xs @ name # ys)) = Inr n)
       \<and> fst (apply_fixes l f path (xs @ name # ys)) = fst (apply_fixes l f path (xs @ ys))
       \<and> fst (snd (apply_fixes l f path (xs @ name # ys))) = fst (snd (apply_fixes l f path (xs @ ys)))
       \<and> fst (snd (apply_fixes l f path [name])) = f
       \<and> (endswith (path_name path) ''.py'' \<and> read_text f path \<noteq> None \<longrightarrow>
            (''Error applying fixer '' @ name @ '' to '' @ path @ '': ''
               @ ''Fixer '' @ name @ '' not found. Available fixers: '' @ join '', '' (map fst AVAILABLE_FIXERS))
              \<in> set (snd (snd (apply_fixes l f path (xs @ name # ys)))))"
proof -
  from assms have n: "map_of AVAILABLE_FIXERS name = None"
    by (simp add: map_of_eq_None_iff)
  then have g: "get_fixer name = Inl (ValueError (''Fixer '' @ name @ '' not found. Available fixers: ''
                                            @ join '', '' (map fst AVAILABLE_FIXERS)))"
    by (simp add: get_fixer_def)
  have e: "fst (apply_fixes l f path (xs @ name # ys)) = fst (apply_fixes l f path (xs @ ys))
       \<and> fst (snd (apply_fixes l f path (xs @ name # ys))) = fst (snd (apply_fixes l f path (xs @ ys)))"
  proof (cases "read_text f path")
    case None
    then show ?thesis by (simp add: apply_fixes_def)
  next
    case (Some content)
    obtain c1 n1 p1 where a: "apply_each l path (xs @ name # ys) (content, 0, []) = (c1, n1, p1)"
      by (cases "apply_each l path (xs @ name # ys) (content, 0, [])")
    obtain c2 n2 p2 where b: "apply_each l path (xs @ ys) (content, 0, []) = (c2, n2, p2)"
      by (cases "apply_each l path (xs @ ys) (content, 0, [])")
    from apply_each_unknown[OF g, of l path xs ys "(content, 0, [])"] a b
    have "c1 = c2" "n1 = n2" by simp_all
    then show ?thesis
      by (simp add: apply_fixes_def Some a b split: option.splits)
  qed
  have s: "fst (snd (apply_fixes l f path [name])) = f"
    by (simp add: apply_fixes_def g split: option.splits)
  have p: "endswith (path_name path) ''.py'' \<and> read_text f path \<noteq> None \<longrightarrow>
            (''Error applying fixer '' @ name @ '' to '' @ path @ '': ''
               @ ''Fixer '' @ name @ '' not found. Available fixers: '' @ join '', '' (map fst AVAILABLE_FIXERS))
              \<in> set (snd (snd (apply_fixes l f path (xs @ name # ys))))"
  proof
    assume h: "endswith (path_name path) ''.py'' \<and> read_text f path \<noteq> None"
    then obtain content where c: "read_text f path = Some content" by auto
    obtain c1 n1 p1 where a: "apply_each l path (xs @ name # ys) (content, 0, []) = (c1, n1, p1)"
      by (cases "apply_each l path (xs @ name # ys) (content, 0, [])")
    from apply_each_prints[OF g, of path l xs ys "(content, 0, [])"] a
    have "(''Error applying fixer '' @ name @ '' to '' @ path @ '': ''
               @ ''Fixer '' @ name @ '' not found. Available fixers: '' @ join '', '' (map fst AVAILABLE_FIXERS))
            \<in> set p1"
      by (simp add: error_str_def)
    then show "(''Error applying fixer '' @ name @ '' to '' @ path @ '': ''
               @ ''Fixer '' @ name @ '' not found. Available fixers: '' @ join '', '' (map fst AVAILABLE_FIXERS))
              \<in> set (snd (snd (apply_fixes l f path (xs @ name # ys))))"
      using h by (simp add: apply_fixes_def c a split: option.splits)
  qed
  from g e s p apply_fixes_returns show ?thesis by blast
qed

theorem unknown_fixer_skipped_witness:
  "''bogus'' \<notin> fst ` set AVAILABLE_FIXERS
   \<and> get_fixer ''bogus'' = Inl (ValueError ''Fixer bogus not found. Available fixers: format_to_fstring'')
   \<and> fst (apply_fixes ex_cst ex_fs ''a.py'' [''format_to_fstring'', ''bogus''])
       = fst (apply_fixes ex_cst ex_fs ''a.py'' [''format_to_fstring''])
   \<and> fst (snd (apply_fixes ex_cst ex_fs ''a.py'' [''bogus''])) = ex_fs
   \<and> endswith (path_name ''a.py'') ''.py'' \<and> read_text ex_fs ''a.py'' \<noteq> None
   \<and> ''Error applying fixer bogus to a.py: Fixer bogus not found. Available fixers: format_to_fstring''
       \<in> set (snd (snd (apply_fixes ex_cst ex_fs ''a.py'' [''format_to_fstring'', ''bogus''])))"
proof -
  have h: "''bogus'' \<notin> fst ` set AVAILABLE_FIXERS" by (simp add: AVAILABLE_FIXERS_def)
  have r: "endswith (path_name ''a.py'') ''.py'' \<and> read_text ex_fs ''a.py'' \<noteq> None"
    by (simp add: endswith_def path_name_def ex_fs_def)
  show ?thesis
    using h r unknown_fixer_skipped[OF h, of ex_cst ex_fs "''a.py''" "[''format_to_fstring'']" "[]"]
    by (simp add: AVAILABLE_FIXERS_def)
qed

text \<open>
  The claim C5 as it is stated fails: with a known and an unknown identifier the call
  returns 1 and the file is rewritten.
\<close>

theorem unknown_fixer_does_not_fail:
  "get_fixer ''bogus'' = Inl (ValueError ''Fixer bogus not found. Available fixers: format_to_fstring'')
   \<and> fst (apply_fixes ex_cst ex_fs ''a.py'' [''format_to_fstring'', ''bogus'']) = Inr 1
   \<and> read_text (fst (snd (apply_fixes ex_cst ex_fs ''a.py'' [''format_to_fstring'', ''bogus'']))) ''a.py''
       = Some (''f'' @ [dquote] @ ''{x}'' @ [dquote])"
  by (simp add: apply_fixes_def get_fixer_def AVAILABLE_FIXERS_def fixer_apply_def error_str_def
        write_text_def endswith_def path_name_def ex_fs_def lib_defs tree_defs parts_defs)

end
